theory Spec2Isabelle
  imports Main "HOL-Library.Word" "HOL-Library.AList"
begin

section \<open>Strings and byte buffers\<close>

text \<open>
  The bridge in \<^verbatim>\<open>src/metaapi.js\<close> receives Node \<^verbatim>\<open>Buffer\<close> chunks on a TCP socket
  and turns them into JavaScript strings. A chunk is a list of bytes; a JavaScript string
  is a list of 16-bit code units.
\<close>

type_synonym byte = "8 word"
type_synonym cunit = "16 word"
type_synonym jsstring = "cunit list"

text \<open>A string literal of the source, written in ASCII.\<close>

definition js :: "string \<Rightarrow> jsstring" where
  "js s = map (\<lambda>c. of_nat (of_char c)) s"

subsection \<open>\<^verbatim>\<open>data.toString()\<close>: UTF-8 decoding of one chunk\<close>

text \<open>
  \<^verbatim>\<open>Buffer.prototype.toString()\<close> decodes the bytes of \<^emph>\<open>this one buffer\<close> as UTF-8. An
  ill-formed or truncated sequence becomes U+FFFD; nothing is carried over to the next
  call. The decoder below is the UTF-8 decoder of the Encoding Standard, run on the byte
  values: the code point built so far, the continuation bytes seen and needed, and the
  bounds allowed for the next continuation byte. A byte that cannot continue a sequence
  ends it with U+FFFD and is then read again as the start of a new one.
\<close>

function utf8_decoder :: "nat \<Rightarrow> nat \<Rightarrow> nat \<Rightarrow> nat \<Rightarrow> nat \<Rightarrow> nat list \<Rightarrow> nat list" where
  "utf8_decoder cp seen needed lo hi [] = (if needed \<noteq> 0 then [0xFFFD] else [])"
| "utf8_decoder cp seen needed lo hi (b # bs) =
    (if needed = 0 then
       (if b \<le> 0x7F then b # utf8_decoder 0 0 0 0x80 0xBF bs
        else if 0xC2 \<le> b \<and> b \<le> 0xDF then utf8_decoder (b mod 32) 0 1 0x80 0xBF bs
        else if 0xE0 \<le> b \<and> b \<le> 0xEF then
          utf8_decoder (b mod 16) 0 2
            (if b = 0xE0 then 0xA0 else 0x80) (if b = 0xED then 0x9F else 0xBF) bs
        else if 0xF0 \<le> b \<and> b \<le> 0xF4 then
          utf8_decoder (b mod 8) 0 3
            (if b = 0xF0 then 0x90 else 0x80) (if b = 0xF4 then 0x8F else 0xBF) bs
        else 0xFFFD # utf8_decoder 0 0 0 0x80 0xBF bs)
     else if b < lo \<or> hi < b then 0xFFFD # utf8_decoder 0 0 0 0x80 0xBF (b # bs)
     else if seen + 1 \<noteq> needed then
       utf8_decoder (cp * 64 + b mod 64) (seen + 1) needed 0x80 0xBF bs
     else (cp * 64 + b mod 64) # utf8_decoder 0 0 0 0x80 0xBF bs)"
  by pat_completeness auto
termination
  by (relation "measure (\<lambda>(cp, seen, needed, lo, hi, bs).
        2 * length bs + (if needed = 0 then 0 else 1))") auto

text \<open>A code point as UTF-16: one code unit, or a surrogate pair above U+FFFF.\<close>

definition utf16 :: "nat \<Rightarrow> jsstring" where
  "utf16 cp =
     (if cp < 0x10000 then [of_nat cp]
      else [of_nat (0xD800 + (cp - 0x10000) div 0x400),
            of_nat (0xDC00 + (cp - 0x10000) mod 0x400)])"

definition toString :: "byte list \<Rightarrow> jsstring" where
  "toString data = concat (map utf16 (utf8_decoder 0 0 0 0x80 0xBF (map unat data)))"

subsection \<open>\<^verbatim>\<open>split('\n')\<close> and \<^verbatim>\<open>trim()\<close>\<close>

text \<open>
  \<^verbatim>\<open>s.split('\n')\<close> cuts at every U+000A and always returns at least one piece: the
  empty string gives one empty piece, and a string that ends in a newline gives a last
  piece that is empty.
\<close>

fun split_newline :: "jsstring \<Rightarrow> jsstring list" where
  "split_newline [] = [[]]"
| "split_newline (c # cs) =
     (if c = 0x0A then [] # split_newline cs
      else (c # hd (split_newline cs)) # tl (split_newline cs))"

text \<open>
  \<^verbatim>\<open>trim()\<close> removes the ECMAScript white space and line terminator code units from
  both ends.
\<close>

definition is_white_space :: "cunit \<Rightarrow> bool" where
  "is_white_space c \<longleftrightarrow>
     c \<in> set [0x0009, 0x000A, 0x000B, 0x000C, 0x000D, 0x0020, 0x00A0, 0x1680,
               0x2000, 0x2001, 0x2002, 0x2003, 0x2004, 0x2005, 0x2006, 0x2007,
               0x2008, 0x2009, 0x200A, 0x2028, 0x2029, 0x202F, 0x205F, 0x3000, 0xFEFF]"

definition trim :: "jsstring \<Rightarrow> jsstring" where
  "trim s = rev (dropWhile is_white_space (rev (dropWhile is_white_space s)))"

subsection \<open>The frame decoder of the \<^verbatim>\<open>'data'\<close> handler (lines 38 to 42)\<close>

text \<open>
  \<^verbatim>\<open>buffer += data.toString(); const messages = buffer.split('\n'); buffer = messages.pop();\<close>
  The result is the list of complete messages and the new residual buffer.
\<close>

definition decode_frames :: "jsstring \<Rightarrow> byte list \<Rightarrow> jsstring list \<times> jsstring" where
  "decode_frames buffer data =
     (let buffer = buffer @ toString data;
          messages = split_newline buffer
      in (butlast messages, last messages))"

text \<open>
  Feeding a sequence of chunks to one connection: the messages emitted so far and the
  residual buffer.
\<close>

fun feed :: "jsstring list \<times> jsstring \<Rightarrow> byte list list \<Rightarrow> jsstring list \<times> jsstring" where
  "feed (emitted, buffer) [] = (emitted, buffer)"
| "feed (emitted, buffer) (data # chunks) =
     (case decode_frames buffer data of
        (messages, buffer') \<Rightarrow> feed (emitted @ messages, buffer') chunks)"

text \<open>The same steps on chunks that are already text (no decoding involved).\<close>

fun feed_text :: "jsstring list \<times> jsstring \<Rightarrow> jsstring list \<Rightarrow> jsstring list \<times> jsstring" where
  "feed_text (emitted, buffer) [] = (emitted, buffer)"
| "feed_text (emitted, buffer) (t # ts) =
     feed_text (emitted @ butlast (split_newline (buffer @ t)),
                last (split_newline (buffer @ t))) ts"

text \<open>The wire form of a list of messages: each followed by one newline.\<close>

definition wire :: "jsstring list \<Rightarrow> jsstring" where
  "wire msgs = concat (map (\<lambda>m. m @ [0x0A]) msgs)"

section \<open>Values\<close>

text \<open>
  The values the program handles are what \<^verbatim>\<open>JSON.parse\<close> returns, and \<^verbatim>\<open>undefined\<close>
  (the value of a property that is not there). A number is kept as its \<^verbatim>\<open>ToString\<close>
  image (\<open>1.1\<close> as \<^verbatim>\<open>"1.1"\<close>; \<open>0\<close> and \<open>-0\<close> both as \<^verbatim>\<open>"0"\<close>): the program only tests
  numbers for truth and uses them as property keys. An object is its list of own
  properties in insertion order.
\<close>

text \<open>
  Inherited properties. The definitions below follow own properties only: a table is the list of its own
  entries, a read finds an own entry or \<^verbatim>\<open>undefined\<close>, a write adds or updates an own
  entry. The source uses plain objects as tables and producer strings as keys, so its reads
  and writes also go through the prototype chain. The two agree as long as
  \<^item> no \<^verbatim>\<open>live_price\<close> symbol is \<^verbatim>\<open>__proto__\<close> (line 77 would make the record the
    prototype of \<^verbatim>\<open>livePrices\<close> instead of adding a key);
  \<^item> no \<^verbatim>\<open>ohlcv\<close> symbol names a member of \<^verbatim>\<open>Object.prototype\<close> (\<^verbatim>\<open>__proto__\<close>,
    \<^verbatim>\<open>constructor\<close>, \<^verbatim>\<open>toString\<close>, ...: lines 87 to 99 would read and write that member,
    for \<^verbatim>\<open>__proto__\<close> \<^verbatim>\<open>Object.prototype\<close> itself), and no \<^verbatim>\<open>ohlcv\<close> timeframe is
    \<^verbatim>\<open>__proto__\<close>;
  \<^item> no route is asked for a key that names such a member.
  After a message of the first two kinds, a read of the source can find an inherited value
  where the tables below have none: a later \<^verbatim>\<open>symbol_list\<close> message without \<^verbatim>\<open>symbols\<close> then
  reads the array that an earlier \<^verbatim>\<open>ohlcv\<close> message for
  \<^verbatim>\<open>(__proto__, symbols)\<close> put on \<^verbatim>\<open>Object.prototype\<close>, and a batch for a symbol that
  \<^verbatim>\<open>Object.prototype\<close> now has as a string is dropped. Statements below that speak of a
  field a message has of its own, or compare two answers of a route, do not depend on this.
\<close>

datatype jsval =
    JUndefined
  | JNull
  | JBool bool
  | JNum jsstring
  | JStr jsstring
  | JArr "jsval list"
  | JObj "(jsstring \<times> jsval) list"

datatype jserror = SyntaxError | TypeError

text \<open>\<^verbatim>\<open>!v\<close> is \<open>\<not> truthy v\<close>.\<close>

fun truthy :: "jsval \<Rightarrow> bool" where
  "truthy JUndefined = False"
| "truthy JNull = False"
| "truthy (JBool b) = b"
| "truthy (JNum t) = (t \<noteq> js ''0'' \<and> t \<noteq> js ''NaN'')"
| "truthy (JStr s) = (s \<noteq> [])"
| "truthy (JArr xs) = True"
| "truthy (JObj kvs) = True"

fun nullish :: "jsval \<Rightarrow> bool" where
  "nullish JUndefined = True"
| "nullish JNull = True"
| "nullish v = False"

fun decimal :: "nat \<Rightarrow> jsstring" where
  "decimal n = (if n < 10 then [of_nat (48 + n)]
                else decimal (n div 10) @ [of_nat (48 + n mod 10)])"

declare decimal.simps [simp del]

text \<open>
  \<^verbatim>\<open>v.name\<close> for a value that is neither \<^verbatim>\<open>null\<close> nor \<^verbatim>\<open>undefined\<close> (for those the read
  throws a TypeError, which the callers below test first), and for the names this program
  reads: \<^verbatim>\<open>type\<close>, \<^verbatim>\<open>symbol\<close>, \<^verbatim>\<open>timeframe\<close>, \<^verbatim>\<open>candles\<close>, \<^verbatim>\<open>symbols\<close> and \<^verbatim>\<open>length\<close>.
\<close>

fun read_prop :: "jsval \<Rightarrow> jsstring \<Rightarrow> jsval" where
  "read_prop (JObj kvs) name = (case map_of kvs name of None \<Rightarrow> JUndefined | Some v \<Rightarrow> v)"
| "read_prop (JArr xs) name = (if name = js ''length'' then JNum (decimal (length xs)) else JUndefined)"
| "read_prop (JStr s) name = (if name = js ''length'' then JNum (decimal (length s)) else JUndefined)"
| "read_prop v name = JUndefined"

text \<open>
  \<^verbatim>\<open>v.name = x\<close>: an object gets or updates its own property; on a primitive the
  assignment has no effect (the file is not in strict mode). The program assigns
  \<^verbatim>\<open>receivedAt\<close> only where \<^verbatim>\<open>data.type\<close> is a string, which makes \<^verbatim>\<open>data\<close> an object.
\<close>

fun write_prop :: "jsval \<Rightarrow> jsstring \<Rightarrow> jsval \<Rightarrow> jsval" where
  "write_prop (JObj kvs) name x = JObj (AList.update name x kvs)"
| "write_prop v name x = v"

text \<open>
  \<^verbatim>\<open>ToString\<close>, which is also how a value becomes a property key in \<^verbatim>\<open>table[v]\<close> and
  how it is printed by a template literal. An array joins its elements with commas
  (\<^verbatim>\<open>null\<close> and \<^verbatim>\<open>undefined\<close> elements print as nothing). A parsed object prints as
  \<^verbatim>\<open>[object Object]\<close>, unless it has an own property \<^verbatim>\<open>toString\<close>: that one is data,
  not a function, and the conversion throws a TypeError.
\<close>

fun join_results :: "(jserror + jsstring) list \<Rightarrow> jserror + jsstring" where
  "join_results [] = Inr []"
| "join_results [r] = r"
| "join_results (r # rs) =
     (case r of Inl e \<Rightarrow> Inl e
      | Inr s \<Rightarrow> (case join_results rs of Inl e \<Rightarrow> Inl e | Inr t \<Rightarrow> Inr (s @ js '','' @ t)))"

fun ToString :: "jsval \<Rightarrow> jserror + jsstring" where
  "ToString JUndefined = Inr (js ''undefined'')"
| "ToString JNull = Inr (js ''null'')"
| "ToString (JBool b) = Inr (if b then js ''true'' else js ''false'')"
| "ToString (JNum t) = Inr t"
| "ToString (JStr s) = Inr s"
| "ToString (JArr xs) =
     join_results (map (\<lambda>x. if nullish x then Inr [] else ToString x) xs)"
| "ToString (JObj kvs) =
     (if js ''toString'' \<in> fst ` set kvs then Inl TypeError else Inr (js ''[object Object]''))"

section \<open>The process state\<close>

text \<open>
  \<^verbatim>\<open>dataStore\<close> (lines 19 to 23). \<^verbatim>\<open>livePrices\<close> and \<^verbatim>\<open>ohlcvData\<close> are objects used as
  tables, \<^verbatim>\<open>symbolList\<close> is an array.
\<close>

record dataStore =
  livePrices :: "(jsstring \<times> jsval) list"
  ohlcvData :: "(jsstring \<times> (jsstring \<times> jsval) list) list"
  symbolList :: "jsval list"

definition initial_dataStore :: dataStore where
  "initial_dataStore = \<lparr>livePrices = [], ohlcvData = [], symbolList = []\<rparr>"

text \<open>One constructor for each \<^verbatim>\<open>console\<close> call of the ingestion path.\<close>

datatype log_entry =
    Error_processing_data jserror jsstring
  | Missing_symbol_in_live_price_data
  | Missing_symbol_or_timeframe_in_OHLCV_data
  | Received_candles jsstring jsstring jsstring
  | Received_symbol_list jsstring
  | Unknown_data_type jsval

text \<open>
  The state of the process seen by the ingestion path: the store, the console output so
  far, and how many times the clock has been read.
\<close>

record state =
  store :: dataStore
  console :: "log_entry list"
  clock_reads :: nat

definition initial_state :: state where
  "initial_state = \<lparr>store = initial_dataStore, console = [], clock_reads = 0\<rparr>"

text \<open>
  What the platform supplies: \<^verbatim>\<open>JSON.parse\<close> (\<open>None\<close> when it throws a SyntaxError),
  \<^verbatim>\<open>String.prototype.toUpperCase\<close>, and the clock, as the sequence of values that
  successive \<^verbatim>\<open>new Date().toISOString()\<close> calls return.
\<close>

record host =
  JSON_parse :: "jsstring \<Rightarrow> jsval option"
  toUpperCase :: "jsstring \<Rightarrow> jsstring"
  clock :: "nat \<Rightarrow> jsstring"

definition console_log :: "log_entry \<Rightarrow> state \<Rightarrow> state" where
  "console_log e st = st\<lparr>console := console st @ [e]\<rparr>"

section \<open>Ingestion\<close>

subsection \<open>Table reads and writes on the store\<close>

text \<open>\<^verbatim>\<open>dataStore.ohlcvData[s][t]\<close>, where \<^verbatim>\<open>dataStore.ohlcvData[s]\<close> is there.\<close>

definition series :: "dataStore \<Rightarrow> jsstring \<Rightarrow> jsstring \<Rightarrow> jsval" where
  "series ds s t =
     (case map_of (ohlcvData ds) s of
        None \<Rightarrow> JUndefined
      | Some tfs \<Rightarrow> (case map_of tfs t of None \<Rightarrow> JUndefined | Some v \<Rightarrow> v))"

text \<open>\<^verbatim>\<open>dataStore.ohlcvData[s][t] = v\<close>, where \<^verbatim>\<open>dataStore.ohlcvData[s]\<close> is there.\<close>

definition set_series :: "jsstring \<Rightarrow> jsstring \<Rightarrow> jsval \<Rightarrow> dataStore \<Rightarrow> dataStore" where
  "set_series s t v ds =
     (case map_of (ohlcvData ds) s of
        None \<Rightarrow> ds
      | Some tfs \<Rightarrow> ds\<lparr>ohlcvData := AList.update s (AList.update t v tfs) (ohlcvData ds)\<rparr>)"

subsection \<open>\<^verbatim>\<open>processIncomingData\<close> (lines 66 to 114)\<close>

text \<open>
  The result is the new state and the exception that left the function, if one did. An
  exception does not undo what the function did before it was thrown.
\<close>

definition live_price :: "jsstring \<Rightarrow> jsval \<Rightarrow> state \<Rightarrow> state \<times> jserror option" where
  "live_price timestamp data st =
     (if \<not> truthy (read_prop data (js ''symbol'')) then
        (console_log Missing_symbol_in_live_price_data st, None)
      else
        let data = write_prop data (js ''receivedAt'') (JStr timestamp) in
        case ToString (read_prop data (js ''symbol'')) of
          Inl e \<Rightarrow> (st, Some e)
        | Inr symbol \<Rightarrow>
            (st\<lparr>store := (store st)\<lparr>livePrices :=
                   AList.update symbol data (livePrices (store st))\<rparr>\<rparr>, None))"

definition ohlcv :: "jsstring \<Rightarrow> jsval \<Rightarrow> state \<Rightarrow> state \<times> jserror option" where
  "ohlcv timestamp data st =
     (if \<not> truthy (read_prop data (js ''symbol'')) \<or> \<not> truthy (read_prop data (js ''timeframe'')) then
        (console_log Missing_symbol_or_timeframe_in_OHLCV_data st, None)
      else
        case ToString (read_prop data (js ''symbol'')) of
          Inl e \<Rightarrow> (st, Some e)
        | Inr symbol \<Rightarrow>
           (let ds = store st;
                ds = (if map_of (ohlcvData ds) symbol = None
                      then ds\<lparr>ohlcvData := AList.update symbol [] (ohlcvData ds)\<rparr> else ds)
            in
            (case ToString (read_prop data (js ''timeframe'')) of
               Inl e \<Rightarrow> (st\<lparr>store := ds\<rparr>, Some e)
             | Inr timeframe \<Rightarrow>
                (let ds = (if \<not> truthy (series ds symbol timeframe)
                           then set_series symbol timeframe (JArr []) ds else ds);
                     data = write_prop data (js ''receivedAt'') (JStr timestamp);
                     candles = read_prop data (js ''candles'');
                     ds = set_series symbol timeframe candles ds;
                     st = st\<lparr>store := ds\<rparr>
                 in
                 if nullish candles then (st, Some TypeError)
                 else
                   (case ToString (read_prop candles (js ''length'')) of
                      Inl e \<Rightarrow> (st, Some e)
                    | Inr n \<Rightarrow> (console_log (Received_candles n symbol timeframe) st, None))))))"

definition symbol_list :: "jsval \<Rightarrow> state \<Rightarrow> state \<times> jserror option" where
  "symbol_list data st =
     (case read_prop data (js ''symbols'') of
        JArr symbols \<Rightarrow>
          (console_log (Received_symbol_list (decimal (length symbols)))
             (st\<lparr>store := (store st)\<lparr>symbolList := symbols\<rparr>\<rparr>), None)
      | _ \<Rightarrow> (st, None))"

definition processIncomingData :: "host \<Rightarrow> jsval \<Rightarrow> state \<Rightarrow> state \<times> jserror option" where
  "processIncomingData h data st =
     (let timestamp = clock h (clock_reads st);
          st = st\<lparr>clock_reads := Suc (clock_reads st)\<rparr>
      in
      if nullish data then (st, Some TypeError)
      else if read_prop data (js ''type'') = JStr (js ''live_price'') then live_price timestamp data st
      else if read_prop data (js ''type'') = JStr (js ''ohlcv'') then ohlcv timestamp data st
      else if read_prop data (js ''type'') = JStr (js ''symbol_list'') then symbol_list data st
      else (console_log (Unknown_data_type (read_prop data (js ''type''))) st, None))"

subsection \<open>The \<^verbatim>\<open>'data'\<close> handler of a connection (lines 36 to 54)\<close>

text \<open>The body of the \<^verbatim>\<open>for\<close> loop, for one message.\<close>

definition handle_message :: "host \<Rightarrow> state \<Rightarrow> jsstring \<Rightarrow> state" where
  "handle_message h st message =
     (if trim message = [] then st
      else
        case JSON_parse h message of
          None \<Rightarrow> console_log (Error_processing_data SyntaxError message) st
        | Some jsonData \<Rightarrow>
            (case processIncomingData h jsonData st of
               (st', None) \<Rightarrow> st'
             | (st', Some e) \<Rightarrow> console_log (Error_processing_data e message) st'))"

fun handle_messages :: "host \<Rightarrow> state \<Rightarrow> jsstring list \<Rightarrow> state" where
  "handle_messages h st [] = st"
| "handle_messages h st (message # messages) =
     handle_messages h (handle_message h st message) messages"

text \<open>A connection is its residual buffer; the handler returns it with the new state.\<close>

definition on_data :: "host \<Rightarrow> jsstring \<times> state \<Rightarrow> byte list \<Rightarrow> jsstring \<times> state" where
  "on_data h conn data =
     (case decode_frames (fst conn) data of
        (messages, buffer) \<Rightarrow> (buffer, handle_messages h (snd conn) messages))"

fun on_data_all :: "host \<Rightarrow> jsstring \<times> state \<Rightarrow> byte list list \<Rightarrow> jsstring \<times> state" where
  "on_data_all h conn [] = conn"
| "on_data_all h conn (data # chunks) = on_data_all h (on_data h conn data) chunks"

section \<open>The query surface\<close>

text \<open>
  A route handler either sends a status and a JSON body, or an exception leaves it (the
  framework then answers 500).
\<close>

datatype response = Reply nat jsval | Uncaught jserror

text \<open>
  \<^verbatim>\<open>xs.slice(start)\<close> of arrays and strings: a negative start counts from the end,
  and both are clamped to the length.
\<close>

definition slice :: "int \<Rightarrow> 'a list \<Rightarrow> 'a list" where
  "slice start xs =
     (let len = int (length xs);
          k = (if start < 0 then max (len + start) 0 else min start len)
      in drop (nat k) xs)"

text \<open>\<^verbatim>\<open>GET /api/price/:symbol\<close> (lines 140 to 149).\<close>

definition getPrice :: "host \<Rightarrow> dataStore \<Rightarrow> jsstring \<Rightarrow> response" where
  "getPrice h ds symbol_param =
     (let symbol = toUpperCase h symbol_param;
          priceData = (case map_of (livePrices ds) symbol of None \<Rightarrow> JUndefined | Some v \<Rightarrow> v)
      in
      if \<not> truthy priceData then
        Reply 404 (JObj [(js ''error'', JStr (js ''No price data available for '' @ symbol))])
      else Reply 200 priceData)"

text \<open>
  \<^verbatim>\<open>GET /api/ohlcv/:symbol/:timeframe\<close> (lines 160 to 181). \<open>parsed_limit\<close> is the value
  of \<^verbatim>\<open>parseInt(req.query.limit)\<close>, \<open>None\<close> for \<^verbatim>\<open>NaN\<close>. A stored value that is neither
  an array nor a string has no \<^verbatim>\<open>slice\<close> method, and the call throws.
\<close>

definition getCandles :: "host \<Rightarrow> dataStore \<Rightarrow> jsstring \<Rightarrow> jsstring \<Rightarrow> int option \<Rightarrow> response" where
  "getCandles h ds symbol_param timeframe parsed_limit =
     (let symbol = toUpperCase h symbol_param;
          limit = (case parsed_limit of None \<Rightarrow> 100 | Some n \<Rightarrow> if n = 0 then 100 else n)
      in
      if map_of (ohlcvData ds) symbol = None \<or> \<not> truthy (series ds symbol timeframe) then
        Reply 404 (JObj [(js ''error'',
          JStr (js ''No OHLCV data available for '' @ symbol @ js '' on '' @ timeframe
                @ js '' timeframe''))])
      else
        case series ds symbol timeframe of
          JArr xs \<Rightarrow>
            (let candles = slice (- limit) xs in
             Reply 200 (JObj [(js ''symbol'', JStr symbol), (js ''timeframe'', JStr timeframe),
               (js ''count'', JNum (decimal (length candles))), (js ''candles'', JArr candles)]))
        | JStr s \<Rightarrow>
            (let candles = slice (- limit) s in
             Reply 200 (JObj [(js ''symbol'', JStr symbol), (js ''timeframe'', JStr timeframe),
               (js ''count'', JNum (decimal (length candles))), (js ''candles'', JStr candles)]))
        | _ \<Rightarrow> Uncaught TypeError)"

text \<open>
  \<^verbatim>\<open>Object.keys\<close>: the keys that are array indices (canonical decimal numerals below
  \<open>2\<^sup>3\<^sup>2 - 1\<close>) in ascending numeric order, then the other keys in insertion order.
\<close>

definition is_digit :: "cunit \<Rightarrow> bool" where
  "is_digit c \<longleftrightarrow> 48 \<le> c \<and> c \<le> 57"

definition numeral_value :: "jsstring \<Rightarrow> nat" where
  "numeral_value s = foldl (\<lambda>n c. 10 * n + (unat c - 48)) 0 s"

definition is_array_index :: "jsstring \<Rightarrow> bool" where
  "is_array_index s \<longleftrightarrow>
     s \<noteq> [] \<and> list_all is_digit s \<and> (s = [48] \<or> hd s \<noteq> 48) \<and> numeral_value s < 2 ^ 32 - 1"

definition object_keys :: "(jsstring \<times> 'v) list \<Rightarrow> jsstring list" where
  "object_keys kvs =
     sort_key numeral_value (filter is_array_index (map fst kvs))
     @ filter (\<lambda>k. \<not> is_array_index k) (map fst kvs)"

text \<open>\<^verbatim>\<open>GET /api/timeframes/:symbol\<close> (lines 184 to 197).\<close>

definition getTimeframes :: "host \<Rightarrow> dataStore \<Rightarrow> jsstring \<Rightarrow> response" where
  "getTimeframes h ds symbol_param =
     (let symbol = toUpperCase h symbol_param in
      case map_of (ohlcvData ds) symbol of
        None \<Rightarrow> Reply 404 (JObj [(js ''error'', JStr (js ''No data available for '' @ symbol))])
      | Some tfs \<Rightarrow>
          Reply 200 (JObj [(js ''symbol'', JStr symbol),
            (js ''timeframes'', JArr (map JStr (object_keys tfs)))]))"

section \<open>Candle batches\<close>

text \<open>
  A parsed value that \<^verbatim>\<open>processIncomingData\<close> takes as a candle batch for the table keys
  \<open>(s, t)\<close>: its \<^verbatim>\<open>type\<close> is \<^verbatim>\<open>'ohlcv'\<close>, its \<^verbatim>\<open>symbol\<close> and \<^verbatim>\<open>timeframe\<close> pass the
  test of line 82 and convert to the keys \<open>s\<close> and \<open>t\<close>.
\<close>

definition ohlcv_for :: "jsval \<Rightarrow> jsstring \<Rightarrow> jsstring \<Rightarrow> bool" where
  "ohlcv_for d s t \<longleftrightarrow>
     read_prop d (js ''type'') = JStr (js ''ohlcv'') \<and>
     truthy (read_prop d (js ''symbol'')) \<and> ToString (read_prop d (js ''symbol'')) = Inr s \<and>
     truthy (read_prop d (js ''timeframe'')) \<and> ToString (read_prop d (js ''timeframe'')) = Inr t"

text \<open>A line that, when handled, is a candle batch for \<open>(s, t)\<close>.\<close>

definition batch_for :: "host \<Rightarrow> jsstring \<Rightarrow> jsstring \<Rightarrow> jsstring \<Rightarrow> bool" where
  "batch_for h m s t \<longleftrightarrow>
     trim m \<noteq> [] \<and> (case JSON_parse h m of None \<Rightarrow> False | Some d \<Rightarrow> ohlcv_for d s t)"

section \<open>Example inputs\<close>

text \<open>
  Concrete messages and a concrete host, for evaluating the definitions. The example
  host's \<^verbatim>\<open>JSON.parse\<close> knows the lines below and rejects every other; its
  \<^verbatim>\<open>toUpperCase\<close> is the ASCII part of the real one; its clock returns a different string
  at each reading.
\<close>

definition ascii_upper :: "cunit \<Rightarrow> cunit" where
  "ascii_upper c = (if 0x61 \<le> c \<and> c \<le> 0x7A then c - 0x20 else c)"

definition symbols_line :: jsstring where
  "symbols_line = js ''{\"type\":\"symbol_list\",\"symbols\":[\"EURUSD\",\"GBPUSD\"]}''"

definition symbols_message :: jsval where
  "symbols_message =
     JObj [(js ''type'', JStr (js ''symbol_list'')),
           (js ''symbols'', JArr [JStr (js ''EURUSD''), JStr (js ''GBPUSD'')])]"

definition candle :: jsval where
  "candle = JObj [(js ''o'', JNum (js ''1'')), (js ''h'', JNum (js ''2'')),
                  (js ''l'', JNum (js ''0.5'')), (js ''c'', JNum (js ''1.5''))]"

definition ohlcv_message :: jsval where
  "ohlcv_message =
     JObj [(js ''type'', JStr (js ''ohlcv'')), (js ''symbol'', JStr (js ''EURUSD'')),
           (js ''timeframe'', JStr (js ''M1'')), (js ''candles'', JArr [candle])]"

definition ohlcv_message_without_candles :: jsval where
  "ohlcv_message_without_candles =
     JObj [(js ''type'', JStr (js ''ohlcv'')), (js ''symbol'', JStr (js ''EURUSD'')),
           (js ''timeframe'', JStr (js ''M1''))]"

definition price_message :: jsval where
  "price_message =
     JObj [(js ''type'', JStr (js ''live_price'')), (js ''symbol'', JStr (js ''EURUSD'')),
           (js ''bid'', JNum (js ''1.1'')), (js ''ask'', JNum (js ''1.2''))]"

definition price_message_2 :: jsval where
  "price_message_2 =
     JObj [(js ''type'', JStr (js ''live_price'')), (js ''symbol'', JStr (js ''EURUSD'')),
           (js ''bid'', JNum (js ''1.3''))]"

definition price_message_lower :: jsval where
  "price_message_lower =
     JObj [(js ''type'', JStr (js ''live_price'')), (js ''symbol'', JStr (js ''eurusd'')),
           (js ''bid'', JNum (js ''1.4''))]"

definition seven_candles :: "jsval list" where
  "seven_candles = [JNum (js ''1''), JNum (js ''2''), JNum (js ''3''), JNum (js ''4''),
                    JNum (js ''5''), JNum (js ''6''), JNum (js ''7'')]"

definition example_store :: dataStore where
  "example_store =
     \<lparr>livePrices = [], ohlcvData = [(js ''EURUSD'', [(js ''M1'', JArr seven_candles)])],
      symbolList = []\<rparr>"

definition candle_old :: jsval where
  "candle_old = JObj [(js ''o'', JNum (js ''9'')), (js ''h'', JNum (js ''9'')),
                  (js ''l'', JNum (js ''9'')), (js ''c'', JNum (js ''9''))]"

definition ohlcv_message_old :: jsval where
  "ohlcv_message_old =
     JObj [(js ''type'', JStr (js ''ohlcv'')), (js ''symbol'', JStr (js ''EURUSD'')),
           (js ''timeframe'', JStr (js ''M1'')), (js ''candles'', JArr [candle_old, candle])]"

definition ohlcv_line :: jsstring where
  "ohlcv_line = js ''{\"type\":\"ohlcv\",\"symbol\":\"EURUSD\",\"timeframe\":\"M1\",\"candles\":[{\"o\":1,\"h\":2,\"l\":0.5,\"c\":1.5}]}''"

definition ohlcv_line_old :: jsstring where
  "ohlcv_line_old = js ''{\"type\":\"ohlcv\",\"symbol\":\"EURUSD\",\"timeframe\":\"M1\",\"candles\":[{\"o\":9,\"h\":9,\"l\":9,\"c\":9},{\"o\":1,\"h\":2,\"l\":0.5,\"c\":1.5}]}''"

definition ohlcv_line_without_candles :: jsstring where
  "ohlcv_line_without_candles = js ''{\"type\":\"ohlcv\",\"symbol\":\"EURUSD\",\"timeframe\":\"M1\"}''"

definition price_line :: jsstring where
  "price_line = js ''{\"type\":\"live_price\",\"symbol\":\"EURUSD\",\"bid\":1.1,\"ask\":1.2}''"

definition example_host :: host where
  "example_host =
     \<lparr>JSON_parse = map_of [(symbols_line, symbols_message), (ohlcv_line, ohlcv_message),
        (ohlcv_line_old, ohlcv_message_old),
        (ohlcv_line_without_candles, ohlcv_message_without_candles), (price_line, price_message)],
      toUpperCase = map ascii_upper,
      clock = (\<lambda>n. js ''2024-01-01T00:00:00.00'' @ decimal n @ js ''Z'')\<rparr>"

text \<open>
  Two chunks as they may arrive on the socket: the first ends in the middle of the second
  line.
\<close>

definition ascii :: "string \<Rightarrow> byte list" where
  "ascii s = map (\<lambda>c. of_nat (of_char c)) s"

definition chunk_1 :: "byte list" where
  "chunk_1 = ascii ''{\"type\":\"live_price\",\"symbol\":\"EURUSD\",\"bid\":1.1,\"ask\":1.2}\<newline>{\"type\":\"ohlcv\",\"symbol\":\"EUR''"

definition chunk_2 :: "byte list" where
  "chunk_2 = ascii ''USD\",\"timeframe\":\"M1\",\"candles\":[{\"o\":1,\"h\":2,\"l\":0.5,\"c\":1.5}]}\<newline>''"

section \<open>Basic facts\<close>

subsection \<open>String literals\<close>

lemma char_code_unit_small: "(of_char c :: nat) < 65536"
proof -
  have "(of_char c :: nat) mod 256 < 256" by (rule mod_less_divisor) simp
  then have "(of_char c :: nat) < 256" by (simp only: of_char_mod_256)
  then show ?thesis by linarith
qed

lemma inj_code_unit: "(of_nat (of_char c) :: cunit) = of_nat (of_char d) \<longleftrightarrow> c = d"
proof
  assume eq: "(of_nat (of_char c) :: cunit) = of_nat (of_char d)"
  then have "unat (of_nat (of_char c) :: cunit) = unat (of_nat (of_char d) :: cunit)" by simp
  then have "(of_char c :: nat) = of_char d"
    using char_code_unit_small[of c] char_code_unit_small[of d]
    by (simp add: unat_of_nat take_bit_nat_eq_self)
  then show "c = d" by simp
qed simp

lemma js_eq_iff [simp]: "js s = js t \<longleftrightarrow> s = t"
proof
  assume "js s = js t"
  then show "s = t"
    unfolding js_def
  proof (induction s arbitrary: t)
    case Nil
    then show ?case by simp
  next
    case (Cons c s)
    then obtain d t' where t: "t = d # t'" by (cases t) auto
    with Cons show ?case by (simp add: inj_code_unit)
  qed
qed simp

lemma js_Nil_iff [simp]: "js s = [] \<longleftrightarrow> s = []"
  by (simp add: js_def)

lemma js_append: "js (a @ b) = js a @ js b"
  by (simp add: js_def)

subsection \<open>Console, property reads and writes\<close>

lemma store_console_log [simp]: "store (console_log e st) = store st"
  by (simp add: console_log_def)

lemma clock_console_log [simp]: "clock_reads (console_log e st) = clock_reads st"
  by (simp add: console_log_def)

lemma handle_messages_append:
  "handle_messages h st (ms @ ms') = handle_messages h (handle_messages h st ms) ms'"
  by (induction ms arbitrary: st) simp_all

lemma read_prop_JStr_object: "read_prop d name = JStr x \<Longrightarrow> \<exists>kvs. d = JObj kvs"
  by (cases d) (auto split: if_splits)

lemma read_prop_write_prop_other:
  "name' \<noteq> name \<Longrightarrow> read_prop (write_prop d name x) name' = read_prop d name'"
  by (cases d) (auto simp: update_conv')

lemma read_prop_write_prop_same:
  "read_prop (write_prop (JObj kvs) name x) name = x"
  by (simp add: update_conv')

lemma not_nullish_typed: "read_prop d name = JStr x \<Longrightarrow> \<not> nullish d"
  by (cases d) auto

text \<open>What an accepted live-price message does.\<close>

lemma live_price_accepted:
  assumes "truthy (read_prop d (js ''symbol''))" and "ToString (read_prop d (js ''symbol'')) = Inr S"
  shows "live_price ts d st =
           (st\<lparr>store := (store st)\<lparr>livePrices :=
              AList.update S (write_prop d (js ''receivedAt'') (JStr ts)) (livePrices (store st))\<rparr>\<rparr>, None)"
  using assms by (simp add: live_price_def Let_def read_prop_write_prop_other)

lemma processIncomingData_live_price:
  assumes "read_prop d (js ''type'') = JStr (js ''live_price'')"
    and "truthy (read_prop d (js ''symbol''))" and "ToString (read_prop d (js ''symbol'')) = Inr S"
  shows "processIncomingData h d st =
           (st\<lparr>clock_reads := Suc (clock_reads st),
               store := (store st)\<lparr>livePrices :=
                 AList.update S (write_prop d (js ''receivedAt'') (JStr (clock h (clock_reads st))))
                   (livePrices (store st))\<rparr>\<rparr>, None)"
  using assms not_nullish_typed [OF assms(1)]
  by (simp add: processIncomingData_def Let_def live_price_accepted)

lemma truthy_write_prop_object:
  "read_prop d name = JStr x \<Longrightarrow> truthy (write_prop d name' y)"
  by (cases d) (auto split: if_splits)

subsection \<open>Trimming\<close>

lemma trim_empty_iff: "trim s = [] \<longleftrightarrow> (\<forall>c \<in> set s. is_white_space c)"
proof
  assume "trim s = []"
  then have "\<forall>c \<in> set (dropWhile is_white_space s). is_white_space c"
    by (simp add: trim_def dropWhile_eq_Nil_conv)
  moreover have "\<not> is_white_space (hd (dropWhile is_white_space s))" if "dropWhile is_white_space s \<noteq> []"
    using that by (rule hd_dropWhile)
  ultimately have "dropWhile is_white_space s = []"
    by (cases "dropWhile is_white_space s") auto
  then show "\<forall>c \<in> set s. is_white_space c"
    by (simp add: dropWhile_eq_Nil_conv)
next
  assume "\<forall>c \<in> set s. is_white_space c"
  then show "trim s = []" by (auto simp: trim_def dest: set_dropWhileD)
qed

lemma trim_starts_with_text: "\<not> is_white_space c \<Longrightarrow> trim (c # cs) \<noteq> []"
proof -
  assume c: "\<not> is_white_space c"
  then have "dropWhile is_white_space (rev cs @ [c]) \<noteq> []"
    by (simp add: dropWhile_append)
  with c show ?thesis by (simp add: trim_def)
qed

subsection \<open>The example host\<close>

lemmas example_lines =
  symbols_line_def ohlcv_line_def ohlcv_line_old_def ohlcv_line_without_candles_def price_line_def

lemmas example_messages =
  symbols_message_def ohlcv_message_def ohlcv_message_old_def ohlcv_message_without_candles_def
  price_message_def

lemma trim_js_brace: "trim (js (CHR ''{'' # s)) \<noteq> []"
  by (simp add: js_def trim_starts_with_text is_white_space_def)

lemma trim_lines [simp]:
  "trim symbols_line \<noteq> []" "trim ohlcv_line \<noteq> []" "trim ohlcv_line_old \<noteq> []"
  "trim ohlcv_line_without_candles \<noteq> []" "trim price_line \<noteq> []"
  unfolding example_lines by (rule trim_js_brace)+

lemma parse_lines [simp]:
  "JSON_parse example_host symbols_line = Some symbols_message"
  "JSON_parse example_host ohlcv_line = Some ohlcv_message"
  "JSON_parse example_host ohlcv_line_old = Some ohlcv_message_old"
  "JSON_parse example_host ohlcv_line_without_candles = Some ohlcv_message_without_candles"
  "JSON_parse example_host price_line = Some price_message"
  by (simp_all add: example_host_def example_lines)

lemma clock_example_host [simp]:
  "clock example_host 0 = js ''2024-01-01T00:00:00.000Z''"
  "clock example_host (Suc 0) = js ''2024-01-01T00:00:00.001Z''"
  by (simp_all add: example_host_def decimal.simps js_def)

lemma upper_examples [simp]:
  "toUpperCase example_host (js ''eurusd'') = js ''EURUSD''"
  "toUpperCase example_host (js ''EURUSD'') = js ''EURUSD''"
  by (simp_all add: example_host_def js_def ascii_upper_def)

lemmas ingestion_defs =
  handle_message_def processIncomingData_def live_price_def ohlcv_def symbol_list_def
  console_log_def series_def set_series_def initial_state_def initial_dataStore_def Let_def

section \<open>The frame decoder\<close>

lemma split_newline_nonempty: "split_newline s \<noteq> []"
  by (induction s) auto

lemma split_newline_append:
  "split_newline (a @ b) = butlast (split_newline a) @ split_newline (last (split_newline a) @ b)"
proof (induction a)
  case Nil
  then show ?case by simp
next
  case (Cons c a)
  then show ?case
    by (cases "split_newline a") (auto simp: split_newline_nonempty)
qed

lemma split_newline_no_newline: "0x0A \<notin> set m \<Longrightarrow> split_newline m = [m]"
  by (induction m) auto

lemma split_newline_message:
  "0x0A \<notin> set m \<Longrightarrow> split_newline (m @ 0x0A # rest) = m # split_newline rest"
  by (induction m) auto

lemma split_newline_wire:
  "\<forall>m \<in> set msgs. 0x0A \<notin> set m \<Longrightarrow> split_newline (wire msgs @ rest) = msgs @ split_newline rest"
  by (induction msgs) (auto simp: wire_def split_newline_message)

lemma last_split_newline_no_newline: "0x0A \<notin> set (last (split_newline s))"
proof (induction s)
  case Nil
  then show ?case by simp
next
  case (Cons c s)
  then show ?case
    by (cases "split_newline s") (auto simp: split_newline_nonempty)
qed

text \<open>
  On text, the chunking does not matter: feeding the pieces one by one emits what one
  split of the whole text gives.
\<close>

lemma feed_text_concat:
  "ts \<noteq> [] \<or> 0x0A \<notin> set buffer \<Longrightarrow>
   feed_text (emitted, buffer) ts =
     (emitted @ butlast (split_newline (buffer @ concat ts)),
      last (split_newline (buffer @ concat ts)))"
proof (induction ts arbitrary: emitted buffer)
  case Nil
  then show ?case by (simp add: split_newline_no_newline)
next
  case (Cons t ts)
  have "split_newline ((buffer @ t) @ concat ts) =
          butlast (split_newline (buffer @ t))
          @ split_newline (last (split_newline (buffer @ t)) @ concat ts)"
    by (rule split_newline_append)
  then show ?case
    using Cons.IH [of "last (split_newline (buffer @ t))"] split_newline_nonempty
      last_split_newline_no_newline [of "buffer @ t"]
    by (simp add: butlast_append)
qed

lemma feed_text_wire:
  assumes "\<forall>m \<in> set msgs. 0x0A \<notin> set m" and "concat ts = wire msgs"
  shows "feed_text ([], []) ts = (msgs, [])"
proof -
  have "split_newline (wire msgs @ []) = msgs @ split_newline []"
    using assms(1) by (rule split_newline_wire)
  then show ?thesis
    using assms(2) by (simp add: feed_text_concat)
qed

text \<open>
  On bytes, a chunk is decoded on its own. Where every chunk is ASCII the decoding is
  byte by byte, and the chunking does not matter either.
\<close>

lemma utf8_decoder_ascii:
  "\<forall>b \<in> set bs. b \<le> 0x7F \<Longrightarrow> utf8_decoder 0 0 0 0x80 0xBF bs = bs"
  by (induction bs) auto

lemma toString_ascii:
  assumes "\<forall>b \<in> set data. b \<le> 0x7F"
  shows "toString data = map ucast data"
proof -
  have "\<forall>n \<in> set (map unat data). n \<le> 0x7F"
    using assms by (auto simp: word_le_nat_alt)
  then have "utf8_decoder 0 0 0 0x80 0xBF (map unat data) = map unat data"
    by (rule utf8_decoder_ascii)
  moreover have "concat (map utf16 (map unat data)) = map ucast data"
    using assms by (induction data) (auto simp: utf16_def word_le_nat_alt)
  ultimately show ?thesis by (simp add: toString_def)
qed

lemma feed_ascii:
  "\<forall>data \<in> set chunks. \<forall>b \<in> set data. b \<le> 0x7F \<Longrightarrow>
   feed (emitted, buffer) chunks = feed_text (emitted, buffer) (map (map ucast) chunks)"
  by (induction chunks arbitrary: emitted buffer) (simp_all add: decode_frames_def Let_def toString_ascii)

lemma feed_ascii_wire:
  assumes "\<forall>data \<in> set chunks. \<forall>b \<in> set data. b \<le> 0x7F"
    and "\<forall>m \<in> set msgs. 0x0A \<notin> set m"
    and "map ucast (concat chunks) = wire msgs"
  shows "feed ([], []) chunks = (msgs, [])"
proof -
  have "concat (map (map ucast) chunks) = wire msgs"
    using assms(3) by (simp add: map_concat)
  with assms(2) have "feed_text ([], []) (map (map ucast) chunks) = (msgs, [])"
    by (rule feed_text_wire)
  with assms(1) show ?thesis by (simp add: feed_ascii)
qed

text \<open>What one chunk gives when it completes exactly one line, and when it completes none.\<close>

lemma decode_frames_line:
  assumes "buffer @ toString data = m @ 0x0A # []" and "0x0A \<notin> set m"
  shows "decode_frames buffer data = ([m], [])"
  using split_newline_message [OF assms(2), of "[]"]
  by (simp add: decode_frames_def assms(1))

lemma decode_frames_part:
  assumes "0x0A \<notin> set (buffer @ toString data)"
  shows "decode_frames buffer data = ([], buffer @ toString data)"
  using split_newline_no_newline [OF assms]
  by (simp add: decode_frames_def)

text \<open>
  C1. The claim: for every way of cutting the byte stream of a sequence of
  newline-delimited messages into chunks, the frame decoder emits the same messages. The
  handler decodes each chunk by itself, so a cut inside a multi-byte UTF-8 character turns
  the two halves into U+FFFD. In the live-price line below the symbol is the one character
  U+00E9, the bytes C3 A9: in one chunk the message comes out with that character; cut
  between C3 and A9 it comes out with two U+FFFD in its place. (Once the text is decoded
  the chunking does not matter, \<open>feed_text_concat\<close>; so for an all-ASCII stream the claim
  holds for every chunking, \<open>feed_ascii_wire\<close>.)
\<close>

theorem frame_decoder_cut_inside_character:
  "feed ([], [])
     [ascii ''{\"type\":\"live_price\",\"symbol\":\"'' @ [0xC3, 0xA9] @ ascii ''\"}\<newline>'']
     = ([js ''{\"type\":\"live_price\",\"symbol\":\"'' @ [0xE9] @ js ''\"}''], []) \<and>
   feed ([], [])
     [ascii ''{\"type\":\"live_price\",\"symbol\":\"'' @ [0xC3], [0xA9] @ ascii ''\"}\<newline>'']
     = ([js ''{\"type\":\"live_price\",\"symbol\":\"'' @ [0xFFFD, 0xFFFD] @ js ''\"}''], [])"
proof -
  let ?a = "''{\"type\":\"live_price\",\"symbol\":\"''"
  let ?whole = "ascii ?a @ [0xC3, 0xA9] @ ascii ''\"}\<newline>''"
  let ?first = "ascii ?a @ [0xC3]"
  let ?second = "[0xA9] @ ascii ''\"}\<newline>''"
  have whole: "[] @ toString ?whole = (js ?a @ [0xE9] @ js ''\"}'') @ 0x0A # []"
    by (simp add: toString_def utf16_def ascii_def js_def)
  have first: "toString ?first = js ?a @ [0xFFFD]"
    by (simp add: toString_def utf16_def ascii_def js_def)
  have second: "(js ?a @ [0xFFFD]) @ toString ?second
                  = (js ?a @ [0xFFFD, 0xFFFD] @ js ''\"}'') @ 0x0A # []"
    by (simp add: toString_def utf16_def ascii_def js_def)
  have d1: "decode_frames [] ?whole = ([js ?a @ [0xE9] @ js ''\"}''], [])"
    by (rule decode_frames_line [OF whole]) (simp add: js_def)
  have nf: "0x0A \<notin> set ([] @ toString ?first)"
    unfolding first by (simp add: js_def)
  have d2: "decode_frames [] ?first = ([], js ?a @ [0xFFFD])"
    using decode_frames_part [OF nf] unfolding first by simp
  have d3: "decode_frames (js ?a @ [0xFFFD]) ?second
              = ([js ?a @ [0xFFFD, 0xFFFD] @ js ''\"}''], [])"
    by (rule decode_frames_line [OF second]) (simp add: js_def)
  have "feed ([], []) [?whole] = ([js ?a @ [0xE9] @ js ''\"}''], [])"
    by (simp only: feed.simps d1 prod.case append_Nil)
  moreover have "feed ([], []) [?first, ?second] = ([js ?a @ [0xFFFD, 0xFFFD] @ js ''\"}''], [])"
    by (simp only: feed.simps d2 d3 prod.case append_Nil)
  ultimately show ?thesis by (rule conjI)
qed

section \<open>A connection\<close>

text \<open>
  The handler, run over the chunks of a connection, handles the messages that the frame
  decoder emits, in their order, and keeps the decoder's residual buffer.
\<close>

lemma feed_emitted:
  "feed (emitted, buffer) chunks =
     (emitted @ fst (feed ([], buffer) chunks), snd (feed ([], buffer) chunks))"
proof (induction chunks arbitrary: emitted buffer)
  case Nil
  then show ?case by simp
next
  case (Cons data chunks)
  obtain messages buffer' where d: "decode_frames buffer data = (messages, buffer')"
    by (cases "decode_frames buffer data")
  show ?case
    using Cons.IH [of "emitted @ messages" buffer'] Cons.IH [of messages buffer']
    by (simp add: d)
qed

lemma on_data_all_feed:
  "on_data_all h (buffer, st) chunks =
     (snd (feed ([], buffer) chunks), handle_messages h st (fst (feed ([], buffer) chunks)))"
proof (induction chunks arbitrary: buffer st)
  case Nil
  then show ?case by simp
next
  case (Cons data chunks)
  obtain messages buffer' where d: "decode_frames buffer data = (messages, buffer')"
    by (cases "decode_frames buffer data")
  show ?case
    using Cons.IH [of buffer' "handle_messages h st messages"] feed_emitted [of messages buffer' chunks]
    by (simp add: d on_data_def handle_messages_append)
qed

section \<open>Lines that are not applied\<close>

lemma live_price_same:
  "store st = store st' \<Longrightarrow>
     store (fst (live_price ts d st)) = store (fst (live_price ts d st')) \<and>
     snd (live_price ts d st) = snd (live_price ts d st')"
  by (auto simp: live_price_def Let_def split: sum.splits)

lemma live_price_clock: "clock_reads (fst (live_price ts d st)) = clock_reads st"
  by (auto simp: live_price_def Let_def split: sum.splits)

lemma symbol_list_same:
  "store st = store st' \<Longrightarrow>
     store (fst (symbol_list d st)) = store (fst (symbol_list d st')) \<and>
     snd (symbol_list d st) = snd (symbol_list d st')"
  by (auto simp: symbol_list_def split: jsval.splits)

lemma symbol_list_clock: "clock_reads (fst (symbol_list d st)) = clock_reads st"
  by (auto simp: symbol_list_def split: jsval.splits)

lemma ohlcv_same:
  "store st = store st' \<Longrightarrow>
     store (fst (ohlcv ts d st)) = store (fst (ohlcv ts d st')) \<and>
     snd (ohlcv ts d st) = snd (ohlcv ts d st')"
  by (auto simp: ohlcv_def Let_def split: sum.splits)

lemma ohlcv_clock: "clock_reads (fst (ohlcv ts d st)) = clock_reads st"
  by (auto simp: ohlcv_def Let_def split: sum.splits)

lemma processIncomingData_clock:
  "clock_reads (fst (processIncomingData h d st)) = Suc (clock_reads st)"
  by (simp add: processIncomingData_def Let_def live_price_clock ohlcv_clock symbol_list_clock)

lemma processIncomingData_same:
  assumes "store st = store st'" and "clock_reads st = clock_reads st'"
  shows "store (fst (processIncomingData h d st)) = store (fst (processIncomingData h d st'))"
    and "snd (processIncomingData h d st) = snd (processIncomingData h d st')"
proof -
  let ?a = "st\<lparr>clock_reads := Suc (clock_reads st)\<rparr>"
  let ?b = "st'\<lparr>clock_reads := Suc (clock_reads st')\<rparr>"
  have s: "store ?a = store ?b" using assms by simp
  show "store (fst (processIncomingData h d st)) = store (fst (processIncomingData h d st'))"
    using assms live_price_same [OF s] ohlcv_same [OF s] symbol_list_same [OF s]
    by (simp add: processIncomingData_def Let_def)
  show "snd (processIncomingData h d st) = snd (processIncomingData h d st')"
    using assms live_price_same [OF s] ohlcv_same [OF s] symbol_list_same [OF s]
    by (simp add: processIncomingData_def Let_def)
qed

lemma store_handle_message:
  "store (handle_message h st m) =
     (if trim m = [] then store st
      else case JSON_parse h m of None \<Rightarrow> store st
           | Some d \<Rightarrow> store (fst (processIncomingData h d st)))"
  by (simp add: handle_message_def split: option.splits prod.splits)

lemma clock_handle_message:
  "clock_reads (handle_message h st m) =
     (if trim m = [] then clock_reads st
      else case JSON_parse h m of None \<Rightarrow> clock_reads st
           | Some d \<Rightarrow> Suc (clock_reads st))"
proof -
  have "clock_reads st' = Suc (clock_reads st)" if "processIncomingData h d st = (st', r)" for d st' r
    using processIncomingData_clock [of h d st] that by simp
  then show ?thesis
    by (auto simp: handle_message_def split: option.splits prod.splits)
qed

lemma handle_message_same:
  assumes "store st = store st'" and "clock_reads st = clock_reads st'"
  shows "store (handle_message h st m) = store (handle_message h st' m)"
    and "clock_reads (handle_message h st m) = clock_reads (handle_message h st' m)"
  using assms processIncomingData_same(1) [OF assms]
  by (simp_all add: store_handle_message clock_handle_message split: option.splits)

lemma handle_messages_same:
  "store st = store st' \<Longrightarrow> clock_reads st = clock_reads st' \<Longrightarrow>
   store (handle_messages h st ms) = store (handle_messages h st' ms)"
proof (induction ms arbitrary: st st')
  case Nil
  then show ?case by simp
next
  case (Cons m ms)
  show ?case
    using Cons.IH [OF handle_message_same [OF Cons.prems]] by simp
qed

text \<open>
  A line that parses, but not to a record (\<^verbatim>\<open>null\<close>, a number, a string, an array), does
  not reach any of the three cases.
\<close>

lemma read_prop_type_object:
  "(\<forall>kvs. d \<noteq> JObj kvs) \<Longrightarrow> read_prop d (js ''type'') \<noteq> JStr x"
  by (cases d) auto

lemma value_that_is_no_record_leaves_store:
  assumes "\<forall>kvs. d \<noteq> JObj kvs"
  shows "store (fst (processIncomingData h d st)) = store st"
  using read_prop_type_object [OF assms]
  by (simp add: processIncomingData_def Let_def)

text \<open>
  C2. A line that \<^verbatim>\<open>JSON.parse\<close> rejects leaves the store as it was, and the loop goes on:
  the store after that line and any further messages is the store that the further
  messages alone produce. (The handler only writes to the console; it never ends or
  destroys the socket.)
\<close>

theorem unparseable_line_is_skipped:
  assumes "JSON_parse h message = None"
  shows "store (handle_message h st message) = store st \<and>
         store (handle_messages h st (message # messages)) = store (handle_messages h st messages)"
proof -
  have 1: "store (handle_message h st message) = store st"
    using assms by (simp add: store_handle_message)
  have 2: "clock_reads (handle_message h st message) = clock_reads st"
    using assms by (simp add: clock_handle_message)
  show ?thesis
    using 1 handle_messages_same [OF 1 2] by simp
qed

theorem unparseable_line_is_skipped_witness:
  "JSON_parse example_host (js ''not json'') = None \<and>
   store (handle_message example_host initial_state (js ''not json'')) = store initial_state \<and>
   store (handle_messages example_host initial_state [js ''not json'', symbols_line])
     = store (handle_messages example_host initial_state [symbols_line]) \<and>
   symbolList (store (handle_messages example_host initial_state [js ''not json'', symbols_line]))
     = [JStr (js ''EURUSD''), JStr (js ''GBPUSD'')]"
proof -
  have h: "JSON_parse example_host (js ''not json'') = None"
    by (simp add: example_host_def example_lines)
  have v: "symbolList (store (handle_messages example_host initial_state [symbols_line]))
     = [JStr (js ''EURUSD''), JStr (js ''GBPUSD'')]"
    by (simp add: store_handle_message processIncomingData_def symbol_list_def symbols_message_def)
  show ?thesis
    using h v unparseable_line_is_skipped [OF h, of initial_state "[symbols_line]"] by simp
qed

text \<open>
  C10. Messages that are empty or all white space are skipped before \<^verbatim>\<open>JSON.parse\<close> is
  called: whatever the host, the whole state (store, console output, clock) is what it
  was. Two newlines in a row, or a newline after blanks, give such messages.
\<close>

theorem blank_lines_are_skipped:
  assumes "\<forall>m \<in> set messages. \<forall>c \<in> set m. is_white_space c"
  shows "handle_messages h st messages = st"
  using assms by (induction messages) (simp_all add: handle_message_def trim_empty_iff)

theorem blank_lines_are_skipped_witness:
  "is_white_space 0x20 \<and>
   decode_frames [] [0x0A, 0x20, 0x0A] = ([[], [0x20]], []) \<and>
   on_data example_host ([], initial_state) [0x0A, 0x20, 0x0A] = ([], initial_state)"
proof -
  have w: "is_white_space 0x20"
    by (simp add: is_white_space_def)
  then have h: "\<forall>m \<in> set [[], [0x20 :: cunit]]. \<forall>c \<in> set m. is_white_space c"
    by simp
  have d: "decode_frames [] [0x0A, 0x20, 0x0A] = ([[], [0x20]], [])"
    by (simp add: decode_frames_def toString_def utf16_def)
  show ?thesis
    using w d blank_lines_are_skipped [OF h, of example_host initial_state]
    by (simp add: on_data_def)
qed

section \<open>The symbol catalog\<close>

lemma processIncomingData_symbol_list:
  assumes "read_prop d (js ''type'') = JStr (js ''symbol_list'')"
  shows "processIncomingData h d st = symbol_list d (st\<lparr>clock_reads := Suc (clock_reads st)\<rparr>)"
  using assms not_nullish_typed [OF assms]
  by (simp add: processIncomingData_def Let_def)

text \<open>
  A \<^verbatim>\<open>symbol_list\<close> message whose own \<^verbatim>\<open>symbols\<close> field is an array replaces the stored
  list by that array and touches nothing else in the store. One whose own \<^verbatim>\<open>symbols\<close>
  field is anything else is passed over: the store and the console output stay as they
  are, and no exception reaches the handler. (A message with no \<^verbatim>\<open>symbols\<close> field of its
  own is passed over in the same way as long as \<^verbatim>\<open>Object.prototype\<close> has no such property;
  see the note on inherited properties in the section on values.)
\<close>

lemma symbol_list_own_field:
  assumes "read_prop d (js ''type'') = JStr (js ''symbol_list'')"
  shows "(read_prop d (js ''symbols'') = JArr xs \<longrightarrow>
            store (fst (processIncomingData h d st)) = (store st)\<lparr>symbolList := xs\<rparr> \<and>
            snd (processIncomingData h d st) = None)
       \<and> (d = JObj kvs \<and> map_of kvs (js ''symbols'') = Some v \<and> (\<forall>ys. v \<noteq> JArr ys) \<longrightarrow>
            store (fst (processIncomingData h d st)) = store st \<and>
            console (fst (processIncomingData h d st)) = console st \<and>
            snd (processIncomingData h d st) = None)"
proof -
  note P = processIncomingData_symbol_list [OF assms, of h st]
  have a: "store (fst (processIncomingData h d st)) = (store st)\<lparr>symbolList := xs\<rparr> \<and>
           snd (processIncomingData h d st) = None"
    if "read_prop d (js ''symbols'') = JArr xs"
    unfolding P using that by (simp add: symbol_list_def console_log_def)
  have b: "store (fst (processIncomingData h d st)) = store st \<and>
           console (fst (processIncomingData h d st)) = console st \<and>
           snd (processIncomingData h d st) = None"
    if "d = JObj kvs" and "map_of kvs (js ''symbols'') = Some v" and "\<forall>ys. v \<noteq> JArr ys"
    unfolding P using that by (cases v) (simp_all add: symbol_list_def)
  show ?thesis
  proof (rule conjI)
    show "read_prop d (js ''symbols'') = JArr xs \<longrightarrow>
            store (fst (processIncomingData h d st)) = (store st)\<lparr>symbolList := xs\<rparr> \<and>
            snd (processIncomingData h d st) = None"
      using a by (rule impI)
  next
    show "d = JObj kvs \<and> map_of kvs (js ''symbols'') = Some v \<and> (\<forall>ys. v \<noteq> JArr ys) \<longrightarrow>
            store (fst (processIncomingData h d st)) = store st \<and>
            console (fst (processIncomingData h d st)) = console st \<and>
            snd (processIncomingData h d st) = None"
    proof (rule impI)
      assume h: "d = JObj kvs \<and> map_of kvs (js ''symbols'') = Some v \<and> (\<forall>ys. v \<noteq> JArr ys)"
      from h have 1: "d = JObj kvs" by (rule conjunct1)
      from h have 2: "map_of kvs (js ''symbols'') = Some v" by (rule conjunct2 [THEN conjunct1])
      from h have 3: "\<forall>ys. v \<noteq> JArr ys" by (rule conjunct2 [THEN conjunct2])
      from 1 2 3 show "store (fst (processIncomingData h d st)) = store st \<and>
            console (fst (processIncomingData h d st)) = console st \<and>
            snd (processIncomingData h d st) = None"
        by (rule b)
    qed
  qed
qed

section \<open>Live prices\<close>



section \<open>Candle series\<close>

lemma series_new_table:
  "map_of (ohlcvData ds) s = None \<Longrightarrow>
   series (ds\<lparr>ohlcvData := AList.update s [] (ohlcvData ds)\<rparr>) s' t' = series ds s' t'"
  by (simp add: series_def update_conv')

lemma series_set_series:
  "map_of (ohlcvData ds) s \<noteq> None \<Longrightarrow>
   series (set_series s t v ds) s' t' = (if s' = s \<and> t' = t then v else series ds s' t')"
  by (auto simp: series_def set_series_def update_conv')

lemma table_set_series:
  "map_of (ohlcvData ds) s \<noteq> None \<Longrightarrow> map_of (ohlcvData (set_series s t v ds)) s \<noteq> None"
  by (auto simp: set_series_def update_conv')

lemma other_tables_set_series [simp]:
  "livePrices (set_series s t v ds) = livePrices ds" "symbolList (set_series s t v ds) = symbolList ds"
  by (auto simp: set_series_def split: option.splits)

lemma ohlcv_accepted_series:
  assumes "truthy (read_prop d (js ''symbol''))" and "ToString (read_prop d (js ''symbol'')) = Inr s"
    and "truthy (read_prop d (js ''timeframe''))" and "ToString (read_prop d (js ''timeframe'')) = Inr t"
  shows "series (store (fst (ohlcv ts d st))) s' t' =
           (if s' = s \<and> t' = t then read_prop d (js ''candles'') else series (store st) s' t')"
proof -
  define ds1 where "ds1 = (if map_of (ohlcvData (store st)) s = None
      then (store st)\<lparr>ohlcvData := AList.update s [] (ohlcvData (store st))\<rparr> else store st)"
  define ds2 where "ds2 = (if \<not> truthy (series ds1 s t) then set_series s t (JArr []) ds1 else ds1)"
  define ds3 where "ds3 = set_series s t (read_prop d (js ''candles'')) ds2"
  have t1: "map_of (ohlcvData ds1) s \<noteq> None"
    by (simp add: ds1_def update_conv')
  have s1: "series ds1 s' t' = series (store st) s' t'" for s' t'
    by (simp add: ds1_def series_new_table)
  have t2: "map_of (ohlcvData ds2) s \<noteq> None"
    using t1 table_set_series [of ds1 s t "JArr []"] by (auto simp: ds2_def)
  have s3: "series ds3 s' t' = (if s' = s \<and> t' = t then read_prop d (js ''candles'') else series (store st) s' t')"
  proof -
    have s2: "s' \<noteq> s \<or> t' \<noteq> t \<Longrightarrow> series ds2 s' t' = series (store st) s' t'"
      using s1 by (auto simp: ds2_def series_set_series [OF t1])
    show ?thesis
      using s2 by (auto simp: ds3_def series_set_series [OF t2])
  qed
  have "store (fst (ohlcv ts d st)) = ds3"
    using assms
    by (simp add: ohlcv_def Let_def ds1_def ds2_def ds3_def read_prop_write_prop_other
        split: sum.splits)
  then show ?thesis using s3 by simp
qed

lemma processIncomingData_ohlcv:
  assumes "read_prop d (js ''type'') = JStr (js ''ohlcv'')"
  shows "processIncomingData h d st = ohlcv (clock h (clock_reads st)) d (st\<lparr>clock_reads := Suc (clock_reads st)\<rparr>)"
  using assms not_nullish_typed [OF assms]
  by (simp add: processIncomingData_def Let_def)

lemma candle_series_is_replaced:
  assumes "read_prop d (js ''type'') = JStr (js ''ohlcv'')"
    and "truthy (read_prop d (js ''symbol''))" and "ToString (read_prop d (js ''symbol'')) = Inr s"
    and "truthy (read_prop d (js ''timeframe''))" and "ToString (read_prop d (js ''timeframe'')) = Inr t"
  shows "series (store (fst (processIncomingData h d st))) s' t' =
           (if s' = s \<and> t' = t then read_prop d (js ''candles'') else series (store st) s' t')"
  using ohlcv_accepted_series [OF assms(2-5)]
  by (simp add: processIncomingData_ohlcv [OF assms(1)])

lemma ohlcv_series:
  "series (store (fst (ohlcv ts d st))) s t =
     (if truthy (read_prop d (js ''symbol'')) \<and> ToString (read_prop d (js ''symbol'')) = Inr s \<and>
         truthy (read_prop d (js ''timeframe'')) \<and> ToString (read_prop d (js ''timeframe'')) = Inr t
      then read_prop d (js ''candles'') else series (store st) s t)"
proof (cases "truthy (read_prop d (js ''symbol'')) \<and> truthy (read_prop d (js ''timeframe''))")
  case False
  then show ?thesis by (auto simp: ohlcv_def)
next
  case tr: True
  show ?thesis
  proof (cases "ToString (read_prop d (js ''symbol''))")
    case (Inl e)
    then show ?thesis using tr by (simp add: ohlcv_def)
  next
    case s0: (Inr s0)
    show ?thesis
    proof (cases "ToString (read_prop d (js ''timeframe''))")
      case (Inl e)
      then show ?thesis using tr s0 by (simp add: ohlcv_def Let_def series_new_table)
    next
      case t0: (Inr t0)
      show ?thesis
        using tr s0 t0 ohlcv_accepted_series [of d s0 t0 ts st s t] by auto
    qed
  qed
qed

lemma live_price_ohlcvData: "ohlcvData (store (fst (live_price ts d st))) = ohlcvData (store st)"
  by (auto simp: live_price_def Let_def split: sum.splits)

lemma symbol_list_ohlcvData: "ohlcvData (store (fst (symbol_list d st))) = ohlcvData (store st)"
  by (auto simp: symbol_list_def split: jsval.splits)

lemma series_cong: "ohlcvData ds = ohlcvData ds' \<Longrightarrow> series ds s t = series ds' s t"
  by (simp add: series_def)

lemma series_processIncomingData:
  "series (store (fst (processIncomingData h d st))) s t =
     (if ohlcv_for d s t then read_prop d (js ''candles'') else series (store st) s t)"
proof -
  let ?st = "st\<lparr>clock_reads := Suc (clock_reads st)\<rparr>"
  have st: "store ?st = store st" by simp
  consider (null) "nullish d"
    | (price) "\<not> nullish d" "read_prop d (js ''type'') = JStr (js ''live_price'')"
    | (ohlcv) "\<not> nullish d" "read_prop d (js ''type'') = JStr (js ''ohlcv'')"
    | (symbols) "\<not> nullish d" "read_prop d (js ''type'') = JStr (js ''symbol_list'')"
    | (other) "\<not> nullish d" "read_prop d (js ''type'') \<noteq> JStr (js ''live_price'')"
        "read_prop d (js ''type'') \<noteq> JStr (js ''ohlcv'')"
        "read_prop d (js ''type'') \<noteq> JStr (js ''symbol_list'')"
    by blast
  then show ?thesis
  proof cases
    case null
    then have "read_prop d (js ''type'') = JUndefined" by (cases d) auto
    with null show ?thesis by (simp add: processIncomingData_def Let_def ohlcv_for_def)
  next
    case price
    then show ?thesis
      using series_cong [OF live_price_ohlcvData [of "clock h (clock_reads st)" d ?st], of s t]
      by (simp add: processIncomingData_def Let_def ohlcv_for_def)
  next
    case ohlcv
    then show ?thesis
      using ohlcv_series [of "clock h (clock_reads st)" d ?st s t]
      by (simp add: processIncomingData_def Let_def ohlcv_for_def)
  next
    case symbols
    then show ?thesis
      using series_cong [OF symbol_list_ohlcvData [of d ?st], of s t]
      by (simp add: processIncomingData_def Let_def ohlcv_for_def)
  next
    case other
    then show ?thesis by (simp add: processIncomingData_def Let_def ohlcv_for_def)
  qed
qed

lemma series_handle_message:
  "series (store (handle_message h st m)) s t =
     (if batch_for h m s t then read_prop (the (JSON_parse h m)) (js ''candles'')
      else series (store st) s t)"
  by (simp add: store_handle_message batch_for_def series_processIncomingData split: option.splits)

lemma series_handle_messages_frame:
  "list_all (\<lambda>m. \<not> batch_for h m s t) ms \<Longrightarrow>
   series (store (handle_messages h st ms)) s t = series (store st) s t"
  by (induction ms arbitrary: st) (simp_all add: series_handle_message)

text \<open>
  Within the tables: the value stored for \<open>(s, t)\<close> is the \<^verbatim>\<open>candles\<close> of the last message
  for \<open>(s, t)\<close> that passed the test of line 82, whatever was stored by the messages before
  it (no append, no merge), and no later message of another kind or for another key changes
  it. This is a statement about own table entries (see the note on inherited properties in
  the section on values), and the last such message may be one without \<^verbatim>\<open>candles\<close>.
\<close>

lemma last_batch_is_stored:
  assumes "trim m \<noteq> []" and "JSON_parse h m = Some d" and "ohlcv_for d s t"
    and "list_all (\<lambda>m'. \<not> batch_for h m' s t) later"
  shows "series (store (handle_messages h st (earlier @ m # later))) s t = read_prop d (js ''candles'')"
proof -
  have "batch_for h m s t" using assms(1-3) by (simp add: batch_for_def)
  then have "series (store (handle_message h (handle_messages h st earlier) m)) s t
               = read_prop d (js ''candles'')"
    using assms(2) by (simp add: series_handle_message)
  then show ?thesis
    using series_handle_messages_frame [OF assms(4)]
    by (simp add: handle_messages_append)
qed

text \<open>
  C3. The claim: an \<^verbatim>\<open>ohlcv\<close> message without \<^verbatim>\<open>candles\<close> leaves the stored series as it
  was. The code tests \<^verbatim>\<open>symbol\<close> and \<^verbatim>\<open>timeframe\<close> only; it then assigns \<^verbatim>\<open>data.candles\<close>,
  which is \<^verbatim>\<open>undefined\<close>, to the table entry, and only the next statement, which reads
  \<^verbatim>\<open>data.candles.length\<close>, throws. The handler catches and logs the TypeError, but the
  series that was stored is gone: the candle route answered 200 before and answers 404
  after.
\<close>

theorem missing_candles_overwrite_series:
  "series (store (handle_messages example_host initial_state [ohlcv_line])) (js ''EURUSD'') (js ''M1'')
     = JArr [candle] \<and>
   series (store (handle_messages example_host initial_state [ohlcv_line, ohlcv_line_without_candles]))
     (js ''EURUSD'') (js ''M1'') = JUndefined \<and>
   console (handle_messages example_host initial_state [ohlcv_line, ohlcv_line_without_candles])
     = [Received_candles (js ''1'') (js ''EURUSD'') (js ''M1''),
        Error_processing_data TypeError ohlcv_line_without_candles] \<and>
   getCandles example_host (store (handle_messages example_host initial_state [ohlcv_line]))
     (js ''eurusd'') (js ''M1'') None
     = Reply 200 (JObj [(js ''symbol'', JStr (js ''EURUSD'')), (js ''timeframe'', JStr (js ''M1'')),
         (js ''count'', JNum (js ''1'')), (js ''candles'', JArr [candle])]) \<and>
   getCandles example_host (store (handle_messages example_host initial_state [ohlcv_line, ohlcv_line_without_candles]))
     (js ''eurusd'') (js ''M1'') None
     = Reply 404 (JObj [(js ''error'',
         JStr (js ''No OHLCV data available for EURUSD on M1 timeframe''))])"
  by (simp add: ingestion_defs example_messages getCandles_def slice_def decimal.simps)
    (simp add: js_def)

text \<open>
  C5. The claim: what is stored for a (symbol, timeframe) is always the complete candle
  sequence of one ingested valid batch. After two valid batches for \<^verbatim>\<open>(EURUSD, M1)\<close> the
  entry holds the candles of the second. A third \<^verbatim>\<open>ohlcv\<close> message for the same key, without
  \<^verbatim>\<open>candles\<close>, then overwrites the entry with \<^verbatim>\<open>undefined\<close> (line 99) before line 100
  throws: the entry is still there, the timeframe route lists \<^verbatim>\<open>M1\<close>, but what it holds is
  the candle sequence of no batch.
\<close>

theorem candle_less_batch_leaves_no_sequence:
  "series (store (handle_messages example_host initial_state [ohlcv_line_old, ohlcv_line]))
     (js ''EURUSD'') (js ''M1'') = JArr [candle] \<and>
   store (handle_messages example_host initial_state
            [ohlcv_line_old, ohlcv_line, ohlcv_line_without_candles])
     = \<lparr>livePrices = [], ohlcvData = [(js ''EURUSD'', [(js ''M1'', JUndefined)])],
        symbolList = []\<rparr> \<and>
   getTimeframes example_host
     (store (handle_messages example_host initial_state
               [ohlcv_line_old, ohlcv_line, ohlcv_line_without_candles]))
     (js ''eurusd'')
     = Reply 200 (JObj [(js ''symbol'', JStr (js ''EURUSD'')),
         (js ''timeframes'', JArr [JStr (js ''M1'')])])"
proof -
  have k: "object_keys [(js ''M1'', JUndefined)] = [js ''M1'']"
    by (simp add: object_keys_def is_array_index_def is_digit_def js_def)
  have s: "store (handle_messages example_host initial_state
            [ohlcv_line_old, ohlcv_line, ohlcv_line_without_candles])
     = \<lparr>livePrices = [], ohlcvData = [(js ''EURUSD'', [(js ''M1'', JUndefined)])],
        symbolList = []\<rparr>"
    by (simp add: ingestion_defs example_messages)
  have b: "series (store (handle_messages example_host initial_state [ohlcv_line_old, ohlcv_line]))
     (js ''EURUSD'') (js ''M1'') = JArr [candle]"
    by (simp add: ingestion_defs example_messages)
  show ?thesis
    unfolding s using b by (simp add: getTimeframes_def k)
qed

text \<open>
  The store that an \<^verbatim>\<open>ohlcv\<close> message leaves does not depend on the timestamp at all.
\<close>

lemma ohlcv_store_ignores_timestamp:
  "store (fst (ohlcv ts d st)) = store (fst (ohlcv ts' d st))"
  by (auto simp: ohlcv_def Let_def read_prop_write_prop_other split: sum.splits)

text \<open>
  C7. The claim: every accepted update is stamped with \<^verbatim>\<open>receivedAt\<close>; the stored live
  price carries it, and for candle batches it is recorded with the stored series. The
  live-price record is stored with its stamp. For a candle batch line 96 stamps the
  message object, but line 99 stores \<^verbatim>\<open>data.candles\<close> alone: the store holds the candle
  array and nothing else, it is the same store whatever the clock says, and the candle
  route has no \<^verbatim>\<open>receivedAt\<close> to return.
\<close>

theorem candle_timestamp_is_not_stored:
  "store (handle_messages example_host initial_state [ohlcv_line])
     = \<lparr>livePrices = [], ohlcvData = [(js ''EURUSD'', [(js ''M1'', JArr [candle])])],
        symbolList = []\<rparr> \<and>
   store (handle_messages (example_host\<lparr>clock := \<lambda>n. js ''1999-12-31T23:59:59.999Z''\<rparr>)
            initial_state [ohlcv_line])
     = store (handle_messages example_host initial_state [ohlcv_line]) \<and>
   getCandles example_host (store (handle_messages example_host initial_state [ohlcv_line]))
     (js ''EURUSD'') (js ''M1'') None
     = Reply 200 (JObj [(js ''symbol'', JStr (js ''EURUSD'')), (js ''timeframe'', JStr (js ''M1'')),
         (js ''count'', JNum (js ''1'')), (js ''candles'', JArr [candle])]) \<and>
   map_of (livePrices (store (handle_messages example_host initial_state [price_line]))) (js ''EURUSD'')
     = Some (JObj [(js ''type'', JStr (js ''live_price'')), (js ''symbol'', JStr (js ''EURUSD'')),
         (js ''bid'', JNum (js ''1.1'')), (js ''ask'', JNum (js ''1.2'')),
         (js ''receivedAt'', JStr (js ''2024-01-01T00:00:00.000Z''))])"
proof -
  have p: "JSON_parse (example_host\<lparr>clock := \<lambda>n. js ''1999-12-31T23:59:59.999Z''\<rparr>) ohlcv_line
             = Some ohlcv_message"
    using parse_lines(2) by simp
  show ?thesis
    using p
    by (simp add: ingestion_defs example_messages getCandles_def slice_def decimal.simps)
      (simp add: js_def)
qed

section \<open>Queries\<close>

lemma series_present:
  "series ds s t = JArr xs \<Longrightarrow> map_of (ohlcvData ds) s \<noteq> None"
  by (auto simp: series_def split: option.splits)

lemma slice_positive_limit:
  "0 < L \<Longrightarrow> slice (- L) xs = drop (length xs - nat L) xs"
  by (auto simp: slice_def Let_def max_def intro!: arg_cong [where f = "\<lambda>n. drop n xs"])

lemma getCandles_stored_array:
  assumes "series ds (toUpperCase h symbol) timeframe = JArr xs" and "0 < L"
  shows "getCandles h ds symbol timeframe (Some L) =
           Reply 200 (JObj [(js ''symbol'', JStr (toUpperCase h symbol)),
             (js ''timeframe'', JStr timeframe),
             (js ''count'', JNum (decimal (min (nat L) (length xs)))),
             (js ''candles'', JArr (drop (length xs - nat L) xs))])"
proof -
  have "length xs - (length xs - nat L) = min (nat L) (length xs)" by arith
  then show ?thesis
    using assms series_present [OF assms(1)]
    by (simp add: getCandles_def Let_def slice_positive_limit)
qed

text \<open>
  A batch of \<open>N\<close> candles that has just been ingested under an upper-case symbol is served
  in the same way.
\<close>

lemma batch_then_getCandles:
  assumes "ohlcv_for d s t" and "read_prop d (js ''candles'') = JArr xs"
    and "toUpperCase h symbol = s" and "0 < L"
  shows "getCandles h (store (fst (processIncomingData h d st))) symbol t (Some L) =
           Reply 200 (JObj [(js ''symbol'', JStr s), (js ''timeframe'', JStr t),
             (js ''count'', JNum (decimal (min (nat L) (length xs)))),
             (js ''candles'', JArr (drop (length xs - nat L) xs))])"
proof -
  have "series (store (fst (processIncomingData h d st))) (toUpperCase h symbol) t = JArr xs"
    using assms(1-3) by (simp add: series_processIncomingData)
  from getCandles_stored_array [OF this assms(4)] assms(3) show ?thesis by simp
qed

text \<open>
  C6. For a stored array of \<open>N\<close> candles and a positive limit \<open>L\<close>, the candle route
  returns the last \<open>min L N\<close> of them in their stored order: the whole array when
  \<open>N \<le> L\<close>, and what is left after dropping the first \<open>N - L\<close> otherwise.
\<close>

theorem getCandles_returns_tail:
  assumes "series ds (toUpperCase h symbol) timeframe = JArr xs" and "0 < L"
  shows "getCandles h ds symbol timeframe (Some L) =
           Reply 200 (JObj [(js ''symbol'', JStr (toUpperCase h symbol)),
             (js ''timeframe'', JStr timeframe),
             (js ''count'', JNum (decimal (min (nat L) (length xs)))),
             (js ''candles'', JArr (drop (length xs - nat L) xs))])
       \<and> (length xs \<le> nat L \<longrightarrow> drop (length xs - nat L) xs = xs)
       \<and> xs = take (length xs - nat L) xs @ drop (length xs - nat L) xs"
  using getCandles_stored_array [OF assms] by simp

theorem getCandles_returns_tail_witness:
  "series example_store (toUpperCase example_host (js ''eurusd'')) (js ''M1'') = JArr seven_candles \<and>
   (0 :: int) < 5 \<and> (0 :: int) < 1000 \<and>
   getCandles example_host example_store (js ''eurusd'') (js ''M1'') (Some 5)
     = Reply 200 (JObj [(js ''symbol'', JStr (js ''EURUSD'')), (js ''timeframe'', JStr (js ''M1'')),
         (js ''count'', JNum (js ''5'')),
         (js ''candles'', JArr [JNum (js ''3''), JNum (js ''4''), JNum (js ''5''),
                               JNum (js ''6''), JNum (js ''7'')])]) \<and>
   getCandles example_host example_store (js ''eurusd'') (js ''M1'') (Some 1000)
     = Reply 200 (JObj [(js ''symbol'', JStr (js ''EURUSD'')), (js ''timeframe'', JStr (js ''M1'')),
         (js ''count'', JNum (js ''7'')), (js ''candles'', JArr seven_candles)])"
proof -
  have 1: "series example_store (toUpperCase example_host (js ''eurusd'')) (js ''M1'') = JArr seven_candles"
    by (simp add: example_store_def series_def)
  have 2: "(0 :: int) < 5" and 3: "(0 :: int) < 1000" by simp_all
  have n: "length seven_candles = 7" by (simp add: seven_candles_def)
  have d: "decimal 5 = js ''5''" "decimal 7 = js ''7''" by (simp_all add: decimal.simps js_def)
  have t: "drop 2 seven_candles = [JNum (js ''3''), JNum (js ''4''), JNum (js ''5''),
                               JNum (js ''6''), JNum (js ''7'')]"
    by (simp add: seven_candles_def)
  show ?thesis
    using 1 getCandles_returns_tail [OF 1 2] getCandles_returns_tail [OF 1 3]
    by (simp add: n d t)
qed

text \<open>
  C9. The claim, as stated, has the price route answer NotFound for every ingested
  live-price symbol that is not all upper case. That fails when a record is stored under
  the upper-case form: after \<^verbatim>\<open>EURUSD\<close> and then \<^verbatim>\<open>eurusd\<close> were ingested, the query for
  \<^verbatim>\<open>eurusd\<close> returns the \<^verbatim>\<open>EURUSD\<close> record.
\<close>

theorem lowercase_query_finds_uppercase_record:
  "read_prop price_message_lower (js ''symbol'') = JStr (js ''eurusd'') \<and>
   toUpperCase example_host (js ''eurusd'') \<noteq> js ''eurusd'' \<and>
   getPrice example_host
     (store (fst (processIncomingData example_host price_message_lower
        (fst (processIncomingData example_host price_message initial_state)))))
     (js ''eurusd'')
     = Reply 200 (JObj [(js ''type'', JStr (js ''live_price'')), (js ''symbol'', JStr (js ''EURUSD'')),
         (js ''bid'', JNum (js ''1.1'')), (js ''ask'', JNum (js ''1.2'')),
         (js ''receivedAt'', JStr (js ''2024-01-01T00:00:00.000Z''))]) \<and>
   getPrice example_host
     (store (fst (processIncomingData example_host price_message_lower
        (fst (processIncomingData example_host price_message initial_state)))))
     (js ''eurusd'')
     \<noteq> Reply 404 (JObj [(js ''error'', JStr (js ''No price data available for EURUSD''))])"
  by (simp add: ingestion_defs example_messages price_message_lower_def getPrice_def)

text \<open>
  C9, amended. The three routes look up the upper-cased symbol, so two symbols with the
  same upper-case form get the same answers. Ingestion stores a live price under the key
  as received. When that key, a non-empty string other than \<^verbatim>\<open>__proto__\<close>, differs from
  its upper-case form, the price route's answer for it is what it was before the
  ingestion: NotFound if it was NotFound. And \<^verbatim>\<open>eurusd\<close> resolves as \<^verbatim>\<open>EURUSD\<close> does.
  (\<^verbatim>\<open>livePrices['__proto__'] = data\<close> does not add a key: it makes the record the prototype
  of the table, and the route may then find the record's own fields.)
\<close>

theorem lookups_use_the_uppercased_key:
  assumes "read_prop d (js ''type'') = JStr (js ''live_price'')"
    and "read_prop d (js ''symbol'') = JStr S" and "S \<noteq> []" and "S \<noteq> js ''__proto__''"
  shows "(toUpperCase h s = toUpperCase h s' \<longrightarrow>
            getPrice h ds s = getPrice h ds s' \<and>
            getCandles h ds s t l = getCandles h ds s' t l \<and>
            getTimeframes h ds s = getTimeframes h ds s')
       \<and> map_of (livePrices (store (fst (processIncomingData h d st)))) S
            = Some (write_prop d (js ''receivedAt'') (JStr (clock h (clock_reads st))))
       \<and> (toUpperCase h S \<noteq> S \<longrightarrow>
            getPrice h (store (fst (processIncomingData h d st))) S = getPrice h (store st) S)
       \<and> (toUpperCase h S \<noteq> S \<and>
            getPrice h (store st) S
              = Reply 404 (JObj [(js ''error'',
                  JStr (js ''No price data available for '' @ toUpperCase h S))]) \<longrightarrow>
            getPrice h (store (fst (processIncomingData h d st))) S
              = Reply 404 (JObj [(js ''error'',
                  JStr (js ''No price data available for '' @ toUpperCase h S))]))
       \<and> (toUpperCase h (js ''eurusd'') = js ''EURUSD'' \<and> toUpperCase h (js ''EURUSD'') = js ''EURUSD'' \<longrightarrow>
            getPrice h ds (js ''eurusd'') = getPrice h ds (js ''EURUSD''))"
proof -
  have t: "truthy (read_prop d (js ''symbol''))" and k: "ToString (read_prop d (js ''symbol'')) = Inr S"
    using assms(2,3) by simp_all
  have same: "toUpperCase h S \<noteq> S \<Longrightarrow>
      getPrice h (store (fst (processIncomingData h d st))) S = getPrice h (store st) S"
    by (simp add: processIncomingData_live_price [OF assms(1) t k] update_conv' getPrice_def)
  show ?thesis
    using same
    by (simp add: processIncomingData_live_price [OF assms(1) t k] update_conv' getPrice_def
        getCandles_def getTimeframes_def)
qed

theorem lookups_use_the_uppercased_key_witness:
  "read_prop price_message_lower (js ''type'') = JStr (js ''live_price'') \<and>
   read_prop price_message_lower (js ''symbol'') = JStr (js ''eurusd'') \<and>
   js ''eurusd'' \<noteq> [] \<and> js ''eurusd'' \<noteq> js ''__proto__'' \<and>
   toUpperCase example_host (js ''eurusd'') = toUpperCase example_host (js ''EURUSD'') \<and>
   getPrice example_host example_store (js ''eurusd'') = getPrice example_host example_store (js ''EURUSD'') \<and>
   getCandles example_host example_store (js ''eurusd'') (js ''M1'') None
     = getCandles example_host example_store (js ''EURUSD'') (js ''M1'') None \<and>
   getTimeframes example_host example_store (js ''eurusd'') = getTimeframes example_host example_store (js ''EURUSD'') \<and>
   map_of (livePrices (store (fst (processIncomingData example_host price_message_lower initial_state))))
      (js ''eurusd'')
     = Some (JObj [(js ''type'', JStr (js ''live_price'')), (js ''symbol'', JStr (js ''eurusd'')),
         (js ''bid'', JNum (js ''1.4'')),
         (js ''receivedAt'', JStr (js ''2024-01-01T00:00:00.000Z''))]) \<and>
   toUpperCase example_host (js ''eurusd'') \<noteq> js ''eurusd'' \<and>
   getPrice example_host (store initial_state) (js ''eurusd'')
     = Reply 404 (JObj [(js ''error'', JStr (js ''No price data available for EURUSD''))]) \<and>
   getPrice example_host (store (fst (processIncomingData example_host price_message_lower initial_state)))
      (js ''eurusd'')
     = Reply 404 (JObj [(js ''error'', JStr (js ''No price data available for EURUSD''))])"
proof -
  have 1: "read_prop price_message_lower (js ''type'') = JStr (js ''live_price'')"
    and 2: "read_prop price_message_lower (js ''symbol'') = JStr (js ''eurusd'')"
    by (simp_all add: price_message_lower_def)
  have 3: "js ''eurusd'' \<noteq> []" and 4: "js ''eurusd'' \<noteq> js ''__proto__''"
    by simp_all
  have w: "write_prop price_message_lower (js ''receivedAt'') (JStr (clock example_host (clock_reads initial_state)))
    = JObj [(js ''type'', JStr (js ''live_price'')), (js ''symbol'', JStr (js ''eurusd'')),
         (js ''bid'', JNum (js ''1.4'')),
         (js ''receivedAt'', JStr (js ''2024-01-01T00:00:00.000Z''))]"
    by (simp add: price_message_lower_def initial_state_def)
  have m: "js ''No price data available for '' @ js ''EURUSD'' = js ''No price data available for EURUSD''"
    by (simp add: js_def)
  have before: "getPrice example_host (store initial_state) (js ''eurusd'')
     = Reply 404 (JObj [(js ''error'', JStr (js ''No price data available for EURUSD''))])"
    by (simp add: getPrice_def initial_state_def initial_dataStore_def m)
  note T = lookups_use_the_uppercased_key [OF 1 2 3 4, where h = example_host and s = "js ''eurusd''"
        and s' = "js ''EURUSD''" and ds = example_store and t = "js ''M1''" and l = None
        and st = initial_state]
  have A: "getPrice example_host example_store (js ''eurusd'') = getPrice example_host example_store (js ''EURUSD'') \<and>
      getCandles example_host example_store (js ''eurusd'') (js ''M1'') None
        = getCandles example_host example_store (js ''EURUSD'') (js ''M1'') None \<and>
      getTimeframes example_host example_store (js ''eurusd'') = getTimeframes example_host example_store (js ''EURUSD'')"
    using T [THEN conjunct1] by simp
  have B: "map_of (livePrices (store (fst (processIncomingData example_host price_message_lower initial_state))))
      (js ''eurusd'')
     = Some (JObj [(js ''type'', JStr (js ''live_price'')), (js ''symbol'', JStr (js ''eurusd'')),
         (js ''bid'', JNum (js ''1.4'')),
         (js ''receivedAt'', JStr (js ''2024-01-01T00:00:00.000Z''))])"
    using T [THEN conjunct2, THEN conjunct1] by (simp only: w)
  have C: "getPrice example_host (store (fst (processIncomingData example_host price_message_lower initial_state)))
      (js ''eurusd'')
     = Reply 404 (JObj [(js ''error'', JStr (js ''No price data available for EURUSD''))])"
    using T [THEN conjunct2, THEN conjunct2, THEN conjunct2, THEN conjunct1] before
    by (simp add: m)
  show ?thesis
    using 1 2 3 4 before A B C by simp
qed

section \<open>A run from bytes to replies\<close>

text \<open>
  The two example chunks, cut inside the second line (on a character boundary), give the
  two messages, and the routes then serve what was ingested.
\<close>

lemma toString_chunk_1:
  "toString chunk_1 = price_line @ [0x0A] @ js ''{\"type\":\"ohlcv\",\"symbol\":\"EUR''"
  by (simp add: chunk_1_def ascii_def toString_def utf16_def price_line_def js_def)

lemma toString_chunk_2:
  "toString chunk_2 = js ''USD\",\"timeframe\":\"M1\",\"candles\":[{\"o\":1,\"h\":2,\"l\":0.5,\"c\":1.5}]}'' @ [0x0A]"
  by (simp add: chunk_2_def ascii_def toString_def utf16_def js_def)

lemma no_newline_price_line: "0x0A \<notin> set price_line"
  by (simp add: price_line_def js_def)

lemma frames_1:
  "decode_frames [] chunk_1 = ([price_line], js ''{\"type\":\"ohlcv\",\"symbol\":\"EUR'')"
proof -
  have "0x0A \<notin> set (js ''{\"type\":\"ohlcv\",\"symbol\":\"EUR'')" by (simp add: js_def)
  then show ?thesis
    using no_newline_price_line
    by (simp add: decode_frames_def toString_chunk_1 split_newline_message split_newline_no_newline)
qed

lemma frames_2:
  "decode_frames (js ''{\"type\":\"ohlcv\",\"symbol\":\"EUR'') chunk_2 = ([ohlcv_line], [])"
proof -
  have "js ''{\"type\":\"ohlcv\",\"symbol\":\"EUR'' @ toString chunk_2 = ohlcv_line @ 0x0A # []"
    by (simp add: toString_chunk_2 ohlcv_line_def js_append [symmetric])
  moreover have "0x0A \<notin> set ohlcv_line" by (simp add: ohlcv_line_def js_def)
  ultimately show ?thesis
    by (simp add: decode_frames_def split_newline_message)
qed

lemma two_chunks:
  "on_data_all example_host ([], initial_state) [chunk_1, chunk_2]
     = ([], handle_messages example_host initial_state [price_line, ohlcv_line])"
  by (simp add: on_data_def frames_1 frames_2)

lemma two_chunks_queries:
  "getPrice example_host (store (snd (on_data_all example_host ([], initial_state) [chunk_1, chunk_2])))
     (js ''EURUSD'')
     = Reply 200 (JObj [(js ''type'', JStr (js ''live_price'')), (js ''symbol'', JStr (js ''EURUSD'')),
         (js ''bid'', JNum (js ''1.1'')), (js ''ask'', JNum (js ''1.2'')),
         (js ''receivedAt'', JStr (js ''2024-01-01T00:00:00.000Z''))]) \<and>
   getCandles example_host (store (snd (on_data_all example_host ([], initial_state) [chunk_1, chunk_2])))
     (js ''EURUSD'') (js ''M1'') (Some 100)
     = Reply 200 (JObj [(js ''symbol'', JStr (js ''EURUSD'')), (js ''timeframe'', JStr (js ''M1'')),
         (js ''count'', JNum (js ''1'')), (js ''candles'', JArr [candle])])"
  unfolding two_chunks
  by (simp add: ingestion_defs example_messages getPrice_def getCandles_def slice_def decimal.simps)
    (simp add: js_def)

end
